theory Spec2Isabelle
  imports Main "HOL-Library.Word"
begin

unbundle bit_operations_syntax

section \<open>Paths and file extensions\<close>

definition LF :: char where "LF = CHR 0x0A"
definition CR :: char where "CR = CHR 0x0D"

text \<open>
  Go strings are byte sequences; they are modelled as \<open>string\<close> (a list of 8-bit
  characters). \<open>filepath.Ext\<close> walks the path from its last byte towards the front,
  stops at a path separator and returns the suffix that starts at the first dot it meets:
  \<^verbatim>\<open>for i := len(path) - 1; i >= 0 && !os.IsPathSeparator(path[i]); i-- {
    if path[i] == '.' { return path[i:] } }
  return ""\<close>
  \<open>ext_scan\<close> is that loop on the reversed path, with the bytes already passed in \<open>acc\<close>.
\<close>

fun ext_scan :: "string \<Rightarrow> string \<Rightarrow> string" where
  "ext_scan [] acc = []"
| "ext_scan (c # cs) acc =
     (if c = CHR ''/'' then []
      else if c = CHR ''.'' then c # acc
      else ext_scan cs (c # acc))"

definition Ext :: "string \<Rightarrow> string" where
  "Ext path = ext_scan (rev path) []"

section \<open>Templates\<close>

text \<open>
  Front-matter values are \<open>interface{}\<close> values produced by the YAML decoder; \<open>VNil\<close> is
  the nil interface, which is also what indexing a Go map gives for an absent key.
\<close>

datatype val =
    VNil
  | VStr string
  | VBool bool
  | VNum int
  | VList "val list"
  | VMap "(string \<times> val) list"

type_synonym metadata = "string \<rightharpoonup> val"

definition index :: "metadata \<Rightarrow> string \<Rightarrow> val" where
  "index m k = (case m k of None \<Rightarrow> VNil | Some v \<Rightarrow> v)"

text \<open>\<open>'b\<close> is the compiled liquid template, an opaque value of the template engine.\<close>

record 'b Template =
  SrcPath :: string
  Metadata :: metadata
  liquidTemplate :: 'b

definition SrcExt :: "'b Template \<Rightarrow> string" where
  "SrcExt templ = Ext (SrcPath templ)"

definition TargetExt :: "'b Template \<Rightarrow> string" where
  "TargetExt templ =
     (let ext = Ext (SrcPath templ)
      in if ext = ''.org'' \<or> ext = ''.md'' then ''.html'' else ext)"

text \<open>
  \<open>IsDraft\<close> asserts that the \<open>draft\<close> value is a bool (\<open>draft.(bool)\<close>); the assertion
  panics on any other value, nil included. \<open>None\<close> is the panic.
\<close>

definition IsDraft :: "'b Template \<Rightarrow> bool option" where
  "IsDraft templ =
     (case Metadata templ ''draft'' of
        Some draft \<Rightarrow> (case draft of VBool b \<Rightarrow> Some b | _ \<Rightarrow> None)
      | None \<Rightarrow> Some False)"

definition IsPost :: "'b Template \<Rightarrow> bool" where
  "IsPost templ = (Metadata templ ''date'' \<noteq> None)"

section \<open>The site and its layout chain\<close>

record 'b Site =
  config :: "string \<rightharpoonup> string"
  layouts :: "string \<rightharpoonup> 'b Template"
  posts :: "'b Template list"
  pages :: "'b Template list"
  tags :: "string \<rightharpoonup> 'b Template"
  renderCache :: "string \<rightharpoonup> string"

text \<open>The values a rendering context binds: \<open>map[string]interface{}\<close> in the source.\<close>

datatype 'b binding =
    BConfig "string \<rightharpoonup> string"
  | BPosts "'b Template list"
  | BTags "string \<rightharpoonup> 'b Template"
  | BMeta metadata
  | BContent string

type_synonym 'b ctx = "string \<rightharpoonup> 'b binding"

definition baseContext :: "'b Site \<Rightarrow> 'b ctx" where
  "baseContext site =
     [''config'' \<mapsto> BConfig (config site),
      ''posts'' \<mapsto> BPosts (posts site),
      ''tags'' \<mapsto> BTags (tags site)]"

text \<open>
  \<open>templ.Render(ctx)\<close> belongs to the template engine: it is a parameter \<open>R\<close> of the model,
  a function from the template and the context to the pair \<open>(content, err)\<close> that Go returns
  (\<open>None\<close> is the nil error). Every call of \<open>R\<close> is recorded, in order, in a list of calls,
  so that the number of layout substitutions and their contexts can be read off the result.

  \<open>Site.render\<close> returns \<open>(content, err)\<close> or panics; its \<open>for\<close> loop may also run forever,
  so the loop is a partial function and \<open>None\<close> means that it does not return.
\<close>

datatype 'e error = LayoutNotFound string | RenderError 'e

type_synonym 'b call = "'b Template \<times> 'b ctx"

datatype ('b, 'e) result =
    Return string "'e error option" "'b call list"
  | Panic

partial_function (option) render_loop ::
  "('b Template \<Rightarrow> 'b ctx \<Rightarrow> string \<times> 'e option) \<Rightarrow> 'b Site \<Rightarrow> 'b ctx \<Rightarrow> string \<Rightarrow>
   'e error option \<Rightarrow> val \<Rightarrow> 'b call list \<Rightarrow> ('b, 'e) result option"
where
  "render_loop R site ctx content err layout calls =
     (if layout \<noteq> VNil \<and> err = None then
        (case layout of
           VStr name \<Rightarrow>
             (case layouts site name of
                Some layout_templ \<Rightarrow>
                  (let ctx1 = ctx(''layout'' \<mapsto> BMeta (Metadata layout_templ));
                       ctx2 = ctx1(''content'' \<mapsto> BContent content);
                       r = R layout_templ ctx2
                   in render_loop R site ctx2 (fst r) (map_option RenderError (snd r))
                        (index (Metadata layout_templ) ''layout'')
                        (calls @ [(layout_templ, ctx2)]))
              | None \<Rightarrow> Some (Return [] (Some (LayoutNotFound name)) calls))
         | _ \<Rightarrow> Some Panic)
      else Some (Return content err calls))"

definition render ::
  "('b Template \<Rightarrow> 'b ctx \<Rightarrow> string \<times> 'e option) \<Rightarrow> 'b Site \<Rightarrow> 'b Template \<Rightarrow>
   ('b, 'e) result option"
where
  "render R site templ =
     (let ctx0 = baseContext site;
          ctx = ctx0(''page'' \<mapsto> BMeta (Metadata templ));
          r = R templ ctx
      in if snd r \<noteq> None then Some (Return [] (map_option RenderError (snd r)) [(templ, ctx)])
         else render_loop R site ctx (fst r) None (index (Metadata templ) ''layout'')
                [(templ, ctx)])"

subsection \<open>Layout chains\<close>

text \<open>
  \<open>follows site m ts v\<close>: following the \<open>layout\<close> field from the metadata \<open>m\<close> through
  the layout mapping of the site visits exactly the layout templates \<open>ts\<close>, in this order,
  and the \<open>layout\<close> value of the last metadata reached is \<open>v\<close>. With \<open>v = VNil\<close> the
  chain ends after \<open>length ts\<close> layouts.
\<close>

fun follows :: "'b Site \<Rightarrow> metadata \<Rightarrow> 'b Template list \<Rightarrow> val \<Rightarrow> bool" where
  "follows site m [] v = (index m ''layout'' = v)"
| "follows site m (t # ts) v =
     (case index m ''layout'' of
        VStr name \<Rightarrow> layouts site name = Some t \<and> follows site (Metadata t) ts v
      | _ \<Rightarrow> False)"





text \<open>
  One layout substitution binds \<open>layout\<close> to the metadata of the layout template and
  \<open>content\<close> to the output rendered so far; \<open>subst_calls\<close> lists the calls of the engine
  that substituting the layouts \<open>ts\<close> one after the other makes, and \<open>expected_calls\<close> puts
  the render of the template itself in front.
\<close>

definition subst_ctx :: "'b ctx \<Rightarrow> string \<Rightarrow> 'b Template \<Rightarrow> 'b ctx" where
  "subst_ctx ctx content t =
     ctx(''layout'' \<mapsto> BMeta (Metadata t), ''content'' \<mapsto> BContent content)"

fun subst_calls ::
  "('b Template \<Rightarrow> 'b ctx \<Rightarrow> string \<times> 'e option) \<Rightarrow> 'b ctx \<Rightarrow> string \<Rightarrow> 'b Template list \<Rightarrow>
   'b call list"
where
  "subst_calls R ctx content [] = []"
| "subst_calls R ctx content (t # ts) =
     (t, subst_ctx ctx content t) #
     subst_calls R (subst_ctx ctx content t) (fst (R t (subst_ctx ctx content t))) ts"

definition page_ctx :: "'b Site \<Rightarrow> 'b Template \<Rightarrow> 'b ctx" where
  "page_ctx site templ = (baseContext site)(''page'' \<mapsto> BMeta (Metadata templ))"

definition expected_calls ::
  "('b Template \<Rightarrow> 'b ctx \<Rightarrow> string \<times> 'e option) \<Rightarrow> 'b Site \<Rightarrow> 'b Template \<Rightarrow>
   'b Template list \<Rightarrow> 'b call list"
where
  "expected_calls R site templ ts =
     (templ, page_ctx site templ) #
     subst_calls R (page_ctx site templ) (fst (R templ (page_ctx site templ))) ts"

definition rendered :: "('b Template \<Rightarrow> 'b ctx \<Rightarrow> string \<times> 'e option) \<Rightarrow> 'b call \<Rightarrow> string" where
  "rendered R c = fst (R (fst c) (snd c))"

definition failure ::
  "('b Template \<Rightarrow> 'b ctx \<Rightarrow> string \<times> 'e option) \<Rightarrow> 'b call \<Rightarrow> 'e error option" where
  "failure R c = map_option RenderError (snd (R (fst c) (snd c)))"





subsection \<open>Example sites\<close>

text \<open>
  A small engine for concrete runs: a compiled body is a pair of texts, and rendering puts
  the \<open>content\<close> binding (empty when there is none) between them. \<open>failing_engine\<close> fails
  on every template.
\<close>

definition wrap_engine ::
  "(string \<times> string) Template \<Rightarrow> (string \<times> string) ctx \<Rightarrow> string \<times> unit option" where
  "wrap_engine t ctx =
     (fst (liquidTemplate t) @
      (case ctx ''content'' of Some (BContent c) \<Rightarrow> c | _ \<Rightarrow> []) @
      snd (liquidTemplate t), None)"

definition failing_engine ::
  "(string \<times> string) Template \<Rightarrow> (string \<times> string) ctx \<Rightarrow> string \<times> unit option" where
  "failing_engine t ctx = ([], Some ())"

definition site_of :: "(string \<rightharpoonup> (string \<times> string) Template) \<Rightarrow> (string \<times> string) Site" where
  "site_of ls =
     \<lparr>config = Map.empty, layouts = ls, posts = [], pages = [], tags = Map.empty,
      renderCache = Map.empty\<rparr>"

definition base_layout :: "(string \<times> string) Template" where
  "base_layout =
     \<lparr>SrcPath = ''layouts/base.html'', Metadata = Map.empty,
      liquidTemplate = (''Header '', '' Footer'')\<rparr>"

definition hello_post :: "(string \<times> string) Template" where
  "hello_post =
     \<lparr>SrcPath = ''src/hello.md'',
      Metadata = [''title'' \<mapsto> VStr ''Hi'', ''layout'' \<mapsto> VStr ''base''],
      liquidTemplate = (''Hello Hi'', [])\<rparr>"

definition blog_site :: "(string \<times> string) Site" where
  "blog_site = site_of [''base'' \<mapsto> base_layout]"





definition page_with :: "val \<Rightarrow> (string \<times> string) Template" where
  "page_with v =
     \<lparr>SrcPath = ''src/index.html'', Metadata = [''layout'' \<mapsto> v],
      liquidTemplate = (''index'', [])\<rparr>"

section \<open>The dev server: rebuilds\<close>

text \<open>
  What \<open>rebuildSite\<close> does to the world is a sequence of actions: lines printed, watches
  added to the fsnotify watcher, the site load, the build, and events published to the
  broker. The model returns that sequence, in the order the code performs it.
\<close>

datatype 'e action =
    Print string
  | PrintErr string 'e
  | WatchAdd string
  | SiteLoad
  | SiteBuild
  | Publish string

record Config =
  SrcDir :: string
  LayoutsDir :: string
  DataDir :: string
  IncludesDir :: string
  SiteUrl :: string

text \<open>A call returns or panics; a panic that nothing recovers ends the process.\<close>

datatype 'a ending = Returns 'a | Panics

text \<open>
  The collaborators of the rebuild are parameters: \<open>add_result\<close> is what \<open>watcher.Add\<close>
  returns for a path, \<open>load_result\<close> how \<open>site.Load\<close> ends and \<open>build_result\<close> how
  \<open>site.Build\<close> ends for the loaded site; both can panic, on a metadata value of the wrong
  type. \<open>src_walk\<close> lists the calls that \<open>filepath.WalkDir\<close> makes for the source
  directory: the path and the directory entry with its \<open>IsDir\<close>. The entry is nil
  (\<open>None\<close>) in the call that reports that the root cannot be examined.
\<close>

record ('e, 's) world =
  add_result :: "string \<Rightarrow> 'e option"
  src_walk :: "(string \<times> bool option) list"
  load_result :: "('e + 's) ending"
  build_result :: "'s \<Rightarrow> 'e option ending"

text \<open>
  The function that \<open>addAll\<close> gives to the walk calls \<open>entry.IsDir()\<close> without a look at
  the error it is given, so it panics on a nil entry; otherwise it adds a watch for a
  directory and returns nil, and the walk goes on.
\<close>

fun watch_dirs :: "(string \<times> bool option) list \<Rightarrow> 'e action list \<times> unit ending" where
  "watch_dirs [] = ([], Returns ())"
| "watch_dirs ((path, entry) # entries) =
     (case entry of
        None \<Rightarrow> ([], Panics)
      | Some isDir \<Rightarrow>
          (case watch_dirs entries of
             (added, walked) \<Rightarrow> ((if isDir then [WatchAdd path] else []) @ added, walked)))"

text \<open>
  \<open>addAll\<close> overwrites \<open>err\<close> with each of the first three \<open>watcher.Add\<close> results and
  ignores the results inside the walk and of the walk, so it returns the result for the
  includes directory.
\<close>

definition addAll :: "Config \<Rightarrow> ('e, 's) world \<Rightarrow> 'e action list \<times> 'e option ending" where
  "addAll cfg w =
     (case watch_dirs (src_walk w) of
        (added, walked) \<Rightarrow>
          ([WatchAdd (LayoutsDir cfg), WatchAdd (DataDir cfg), WatchAdd (IncludesDir cfg)] @ added,
           case walked of
             Panics \<Rightarrow> Panics
           | Returns u \<Rightarrow> Returns (add_result w (IncludesDir cfg))))"

definition rebuildSite :: "Config \<Rightarrow> ('e, 's) world \<Rightarrow> 'e action list \<times> unit ending" where
  "rebuildSite cfg w =
     (let started = [Print (''building site'' @ [LF])]
      in case addAll cfg w of
           (added, Panics) \<Rightarrow> (started @ added, Panics)
         | (added, Returns failed) \<Rightarrow>
             (let watched = started @ added @
                    (case failed of
                       Some err \<Rightarrow>
                         [PrintErr (''couldn'' @ [CHR 0x27] @ ''t add watchers:'') err]
                     | None \<Rightarrow> [])
              in case load_result w of
                   Panics \<Rightarrow> (watched @ [SiteLoad], Panics)
                 | Returns (Inl err) \<Rightarrow>
                     (watched @ [SiteLoad, PrintErr ''load error:'' err], Returns ())
                 | Returns (Inr site) \<Rightarrow>
                     (case build_result w site of
                        Panics \<Rightarrow> (watched @ [SiteLoad, SiteBuild], Panics)
                      | Returns (Some err) \<Rightarrow>
                          (watched @ [SiteLoad, SiteBuild, PrintErr ''build error:'' err],
                           Returns ())
                      | Returns None \<Rightarrow>
                          (watched @ [SiteLoad, SiteBuild, Publish ''rebuild'',
                             Print (''done'' @ [LF] @ ''serving at '' @ SiteUrl cfg @ [LF])],
                           Returns ()))))"




definition blog_config :: Config where
  "blog_config =
     \<lparr>SrcDir = ''src'', LayoutsDir = ''layouts'', DataDir = ''data'',
      IncludesDir = ''includes'', SiteUrl = ''http://localhost:4001''\<rparr>"

definition blog_world ::
  "(unit + unit) ending \<Rightarrow> unit option ending \<Rightarrow> (unit, unit) world" where
  "blog_world loaded built =
     \<lparr>add_result = (\<lambda>path. None),
      src_walk = [(''src'', Some True), (''src/index.html'', Some False), (''src/blog'', Some True)],
      load_result = loaded,
      build_result = (\<lambda>site. built)\<rparr>"

text \<open>The same world once the source directory is gone.\<close>

definition lost_world :: "(unit, unit) world" where
  "lost_world = (blog_world (Returns (Inr ())) (Returns None))\<lparr>src_walk := [(''src'', None)]\<rparr>"

section \<open>The dev server: the watcher loop\<close>

text \<open>
  \<open>fsnotify.Op\<close> is a \<open>uint32\<close> bit set; \<open>Event.Has\<close> tests that all bits of the given
  operation are set (\<open>e.Op&op == op\<close>).
\<close>

type_synonym Op = "32 word"

definition Create :: Op where "Create = 1"
definition Write :: Op where "Write = 2"
definition Remove :: Op where "Remove = 4"
definition Rename :: Op where "Rename = 8"
definition Chmod :: Op where "Chmod = 16"

record Event =
  Name :: string
  Op :: Op

definition Has :: "Event \<Rightarrow> Op \<Rightarrow> bool" where
  "Has event op = (Op event AND op = op)"

text \<open>
  The goroutine of \<open>setupWatcher\<close> selects on two channels; a receive gives a value, or
  \<open>None\<close> when the channel is closed (\<open>ok\<close> false), which ends the loop. The state of the
  loop is the timer \<open>rebuildAfter\<close> (the time in milliseconds at which it will fire, if it
  is armed), the lines printed, and whether the loop still runs. \<open>time.AfterFunc(0, ...)\<close>
  arms the timer for the time of the call.
\<close>

datatype 'e received = FromEvents "Event option" | FromErrors "'e option"

record 'e watcher =
  rebuildAfter :: "nat option"
  printed :: "'e action list"
  running :: bool

definition Stop :: "'e watcher \<Rightarrow> 'e watcher" where
  "Stop st = st\<lparr>rebuildAfter := None\<rparr>"

definition Reset :: "nat \<Rightarrow> nat \<Rightarrow> 'e watcher \<Rightarrow> 'e watcher" where
  "Reset now d st = st\<lparr>rebuildAfter := Some (now + d)\<rparr>"

definition setupWatcher :: "nat \<Rightarrow> 'e watcher" where
  "setupWatcher now = \<lparr>rebuildAfter = Some now, printed = [], running = True\<rparr>"

definition idle_watcher :: "'e watcher" where
  "idle_watcher = \<lparr>rebuildAfter = None, printed = [], running = True\<rparr>"

fun watcher_step :: "'e watcher \<Rightarrow> nat \<times> 'e received \<Rightarrow> 'e watcher" where
  "watcher_step st (now, FromEvents None) = st\<lparr>running := False\<rparr>"
| "watcher_step st (now, FromEvents (Some event)) =
     (if Has event Chmod then st
      else Reset now 100 (Stop (st\<lparr>printed := printed st @ [Print ([LF] @ ''file '' @ Name event @ '' changed'' @ [LF])]\<rparr>)))"
| "watcher_step st (now, FromErrors None) = st\<lparr>running := False\<rparr>"
| "watcher_step st (now, FromErrors (Some err)) =
     st\<lparr>printed := printed st @ [PrintErr ''error:'' err]\<rparr>"

fun watcher_loop :: "'e watcher \<Rightarrow> (nat \<times> 'e received) list \<Rightarrow> 'e watcher" where
  "watcher_loop st [] = st"
| "watcher_loop st (r # rs) =
     (if running st then watcher_loop (watcher_step st r) rs else st)"

definition chmod_event :: "nat \<times> 'e received \<Rightarrow> bool" where
  "chmod_event r = (case snd r of FromEvents (Some event) \<Rightarrow> Has event Chmod | _ \<Rightarrow> False)"

section \<open>The dev server: the event broker\<close>

text \<open>
  Channels are identified by numbers; a \<open>chan string\<close> value is such a channel or nil
  (\<open>None\<close>). The broker goroutine owns the registry \<open>subscribers\<close> (a Go map, here an
  association list with one pair for each key). The model also keeps the set of channels that
  have been closed and, for each channel, the events sent on it. The goroutine panics when it
  closes a nil or a closed channel and when it sends on a closed channel; an unrecovered panic
  in a goroutine ends the process.
\<close>

type_synonym chan = nat

record Subscription =
  id' :: "64 word"
  outEvents :: "chan option"

datatype message = InSubscriptions Subscription | InEvents string

record EventBroker =
  subscribers :: "(64 word \<times> chan) list"
  closed :: "chan list"
  sent :: "chan \<Rightarrow> string list"

datatype panic = CloseOfNilChannel | CloseOfClosedChannel | SendOnClosedChannel

definition newEventBroker :: EventBroker where
  "newEventBroker = \<lparr>subscribers = [], closed = [], sent = (\<lambda>c. [])\<rparr>"

definition delete :: "64 word \<Rightarrow> (64 word \<times> chan) list \<Rightarrow> (64 word \<times> chan) list" where
  "delete k m = filter (\<lambda>p. fst p \<noteq> k) m"

definition close :: "EventBroker \<Rightarrow> chan option \<Rightarrow> panic + EventBroker" where
  "close broker c =
     (case c of
        None \<Rightarrow> Inl CloseOfNilChannel
      | Some ch \<Rightarrow>
          if ch \<in> set (closed broker) then Inl CloseOfClosedChannel
          else Inr (broker\<lparr>closed := ch # closed broker\<rparr>))"

fun send_all :: "EventBroker \<Rightarrow> chan list \<Rightarrow> string \<Rightarrow> panic + EventBroker" where
  "send_all broker [] msg = Inr broker"
| "send_all broker (ch # chs) msg =
     (if ch \<in> set (closed broker) then Inl SendOnClosedChannel
      else send_all (broker\<lparr>sent := (sent broker)(ch := sent broker ch @ [msg])\<rparr>) chs msg)"

fun broker_step :: "EventBroker \<Rightarrow> message \<Rightarrow> panic + EventBroker" where
  "broker_step broker (InSubscriptions msg) =
     (case outEvents msg of
        Some ch \<Rightarrow>
          Inr (broker\<lparr>subscribers := (id' msg, ch) # delete (id' msg) (subscribers broker)\<rparr>)
      | None \<Rightarrow>
          (case close broker (map_of (subscribers broker) (id' msg)) of
             Inl p \<Rightarrow> Inl p
           | Inr broker' \<Rightarrow>
               Inr (broker'\<lparr>subscribers := delete (id' msg) (subscribers broker')\<rparr>)))"
| "broker_step broker (InEvents msg) = send_all broker (map snd (subscribers broker)) msg"

fun broker_loop :: "EventBroker \<Rightarrow> message list \<Rightarrow> panic + EventBroker" where
  "broker_loop broker [] = Inr broker"
| "broker_loop broker (m # ms) =
     (case broker_step broker m of Inl p \<Rightarrow> Inl p | Inr broker' \<Rightarrow> broker_loop broker' ms)"

definition unsubscribe :: "64 word \<Rightarrow> message" where
  "unsubscribe i = InSubscriptions \<lparr>id' = i, outEvents = None\<rparr>"

definition subscribe :: "64 word \<Rightarrow> chan \<Rightarrow> message" where
  "subscribe i ch = InSubscriptions \<lparr>id' = i, outEvents = Some ch\<rparr>"

definition publish :: "string \<Rightarrow> message" where
  "publish event = InEvents event"

section \<open>The file system\<close>

text \<open>
  A file system maps a path to a directory or to a file with its bytes. The \<open>os\<close> calls of
  the source are modelled with the failures that depend on the file system: a path that does
  not exist, a directory where a file is needed and a file where a directory is needed.
\<close>

datatype node = Dir | File string

type_synonym filesystem = "string \<rightharpoonup> node"

datatype 'e failure =
    NotExist string
  | IsDirectory string
  | NotDirectory string
  | WalkFailure 'e
  | RenderTemplateFailure 'e












section \<open>The build\<close>




definition TrimSuffix :: "string \<Rightarrow> string \<Rightarrow> string" where
  "TrimSuffix s suffix =
     (if length suffix \<le> length s \<and> drop (length s - length suffix) s = suffix
      then take (length s - length suffix) s else s)"













section \<open>The template parser\<close>

subsection \<open>Trimming white space\<close>

text \<open>
  \<open>strings.TrimSpace\<close> removes leading and trailing white space as Unicode defines it,
  from a string of bytes that is read as UTF-8. The white-space code points are U+0009 to
  U+000D, U+0020, U+0085, U+00A0, U+1680, U+2000 to U+200A, U+2028, U+2029, U+202F, U+205F and
  U+3000; \<open>space_runes\<close> lists their encodings. A byte sequence that is no valid encoding
  decodes to the error rune, which is no white space, so trimming removes exactly the
  encodings listed, from the left and then from the right.
\<close>

definition space_runes :: "string list" where
  "space_runes =
     [[CHR 0x09], [CHR 0x0A], [CHR 0x0B], [CHR 0x0C], [CHR 0x0D], [CHR 0x20],
      [CHR 0xC2, CHR 0x85], [CHR 0xC2, CHR 0xA0],
      [CHR 0xE1, CHR 0x9A, CHR 0x80],
      [CHR 0xE2, CHR 0x80, CHR 0x80], [CHR 0xE2, CHR 0x80, CHR 0x81],
      [CHR 0xE2, CHR 0x80, CHR 0x82], [CHR 0xE2, CHR 0x80, CHR 0x83],
      [CHR 0xE2, CHR 0x80, CHR 0x84], [CHR 0xE2, CHR 0x80, CHR 0x85],
      [CHR 0xE2, CHR 0x80, CHR 0x86], [CHR 0xE2, CHR 0x80, CHR 0x87],
      [CHR 0xE2, CHR 0x80, CHR 0x88], [CHR 0xE2, CHR 0x80, CHR 0x89],
      [CHR 0xE2, CHR 0x80, CHR 0x8A],
      [CHR 0xE2, CHR 0x80, CHR 0xA8], [CHR 0xE2, CHR 0x80, CHR 0xA9],
      [CHR 0xE2, CHR 0x80, CHR 0xAF], [CHR 0xE2, CHR 0x81, CHR 0x9F],
      [CHR 0xE3, CHR 0x80, CHR 0x80]]"

text \<open>The width of the rune of the list that the string starts with, 0 if there is none.\<close>

definition leading :: "string list \<Rightarrow> string \<Rightarrow> nat" where
  "leading runes s =
     (case find (\<lambda>r. r \<noteq> [] \<and> take (length r) s = r) runes of
        Some r \<Rightarrow> length r
      | None \<Rightarrow> 0)"

function trim_leading :: "string list \<Rightarrow> string \<Rightarrow> string" where
  "trim_leading runes s =
     (if leading runes s = 0 then s else trim_leading runes (drop (leading runes s) s))"
  by pat_completeness auto
termination
proof (relation "measure (\<lambda>(runes, s). length s)")
  show "wf (measure (\<lambda>(runes :: string list, s :: string). length s))"
    by simp
next
  fix runes :: "string list" and s :: string
  assume "leading runes s \<noteq> 0"
  then obtain r where "find (\<lambda>r. r \<noteq> [] \<and> take (length r) s = r) runes = Some r"
    and "leading runes s = length r"
    by (auto simp: leading_def split: option.splits)
  then have "r \<noteq> []" and "take (length r) s = r"
    by (auto simp: find_Some_iff)
  then have "s \<noteq> []" by auto
  with \<open>leading runes s \<noteq> 0\<close>
  show "((runes, drop (leading runes s) s), (runes, s)) \<in> measure (\<lambda>(runes, s). length s)"
    by simp
qed

declare trim_leading.simps [simp del]

definition TrimSpace :: "string \<Rightarrow> string" where
  "TrimSpace s = rev (trim_leading (map rev space_runes) (rev (trim_leading space_runes s)))"

subsection \<open>Scanning lines\<close>

text \<open>
  A \<open>bufio.Scanner\<close> with the default split function delivers the lines of its input
  without the line end (\<open>\n\<close>, or \<open>\r\n\<close>); the last line needs no line end, and an empty
  input has no line. Its buffer holds \<open>MaxScanTokenSize\<close> bytes: at a line of that many
  bytes or more \<open>Scan\<close> fails, and it returns false from then on. \<open>ScanLines\<close> is the list of
  the tokens for which \<open>Scan\<close> returns true.
\<close>

definition MaxScanTokenSize :: nat where
  "MaxScanTokenSize = 64 * 1024"

definition dropCR :: "string \<Rightarrow> string" where
  "dropCR data = (if data \<noteq> [] \<and> last data = CR then butlast data else data)"

function ScanLines :: "string \<Rightarrow> string list" where
  "ScanLines data =
     (if data = [] then []
      else if MaxScanTokenSize \<le> length (takeWhile (\<lambda>c. c \<noteq> LF) data) then []
      else dropCR (takeWhile (\<lambda>c. c \<noteq> LF) data) #
           ScanLines (drop (Suc (length (takeWhile (\<lambda>c. c \<noteq> LF) data))) data))"
  by pat_completeness auto
termination
  by (relation "measure length") auto

declare ScanLines.simps [simp del]

text \<open>
  \<open>Parse\<close> calls \<open>Scan\<close> once and takes \<open>Text\<close>, which is empty when \<open>Scan\<close> returned
  false: \<open>first_line\<close> is the line that \<open>Parse\<close> reads first.
\<close>

definition first_line :: "string \<Rightarrow> string" where
  "first_line data = (case ScanLines data of [] \<Rightarrow> [] | line # lines \<Rightarrow> line)"

text \<open>The first line of a file, as bytes: what comes before its first line feed.\<close>

definition file_first_line :: "string \<Rightarrow> string" where
  "file_first_line data = takeWhile (\<lambda>c. c \<noteq> LF) data"

subsection \<open>Front matter\<close>

definition FM_SEPARATOR :: string where
  "FM_SEPARATOR = ''---''"

text \<open>
  The second loop of \<open>Parse\<close>, over the lines after the first: the state is
  \<open>(yamlContent, liquidContent, yamlClosed)\<close>.
\<close>

fun front_matter :: "string list \<Rightarrow> string \<times> string \<times> bool \<Rightarrow> string \<times> string \<times> bool" where
  "front_matter [] state = state"
| "front_matter (text # lines) (yamlContent, liquidContent, yamlClosed) =
     (if yamlClosed then
        front_matter lines (yamlContent, liquidContent @ text @ [LF], yamlClosed)
      else if TrimSpace text = FM_SEPARATOR then
        front_matter lines (yamlContent, liquidContent, True)
      else front_matter lines (yamlContent @ text @ [LF], liquidContent, yamlClosed))"

datatype 'e parse_error =
    OpenFailed string
  | FrontMatterNotClosed
  | InvalidYaml string 'e
  | LiquidFailed 'e

text \<open>
  The YAML decoder and the liquid engine are parameters: \<open>Unmarshal\<close> decodes the front
  matter into a metadata map, \<open>ParseTemplateAndCache\<close> compiles the body for a path. The
  result of \<open>Parse\<close> is an error, or \<open>None\<close> for \<open>(nil, nil)\<close>, or a template. Opening a
  directory succeeds and reading it fails, which the scanner reports as the end of the
  input.
\<close>

definition Parse ::
  "(string \<Rightarrow> 'e + metadata) \<Rightarrow> (string \<Rightarrow> string \<Rightarrow> 'e + 'b) \<Rightarrow> filesystem \<Rightarrow> string \<Rightarrow>
   'e parse_error + 'b Template option"
where
  "Parse Unmarshal ParseTemplateAndCache fs path =
     (case fs path of
        None \<Rightarrow> Inl (OpenFailed path)
      | Some file \<Rightarrow>
          (let data = (case file of File bytes \<Rightarrow> bytes | Dir \<Rightarrow> []);
               line = first_line data
           in if TrimSpace line \<noteq> FM_SEPARATOR then Inr None
              else
                (case front_matter (tl (ScanLines data)) ([], [], False) of
                   (yamlContent, liquidContent, yamlClosed) \<Rightarrow>
                     if \<not> yamlClosed then Inl FrontMatterNotClosed
                     else
                       (case (if yamlContent \<noteq> [] then Unmarshal yamlContent
                              else Inr Map.empty) of
                          Inl err \<Rightarrow> Inl (InvalidYaml path err)
                        | Inr metadata \<Rightarrow>
                            (case ParseTemplateAndCache (TrimSuffix liquidContent [LF]) path of
                               Inl err \<Rightarrow> Inl (LiquidFailed err)
                             | Inr liquid \<Rightarrow>
                                 Inr (Some \<lparr>SrcPath = path, Metadata = metadata,
                                            liquidTemplate = liquid\<rparr>))))))"

text \<open>An engine for concrete runs: no metadata, and the body as the compiled template.\<close>

definition no_yaml :: "string \<Rightarrow> unit + metadata" where
  "no_yaml yamlContent = Inr Map.empty"

definition plain_body :: "string \<Rightarrow> string \<Rightarrow> unit + string" where
  "plain_body liquidContent path = Inr liquidContent"

definition about_page :: string where
  "about_page =
     ''---'' @ [CR, LF] @ ''title: About'' @ [LF] @ '' --- '' @ [LF] @ ''About us'' @ [LF]"

definition robots :: string where
  "robots = ''User-agent: *'' @ [LF]"

text \<open>A page whose delimiter line is padded with 64 KiB of blanks.\<close>

definition padded_page :: string where
  "padded_page =
     ''---'' @ replicate MaxScanTokenSize (CHR '' '') @ [LF] @ ''title: Padded'' @ [LF] @
     ''---'' @ [LF] @ ''Padded'' @ [LF]"

definition some_files :: filesystem where
  "some_files =
     [''src/about.html'' \<mapsto> File about_page,
      ''src/robots.txt'' \<mapsto> File robots,
      ''src/padded.html'' \<mapsto> File padded_page,
      ''src/empty'' \<mapsto> File []]"

section \<open>Target extension\<close>

text \<open>
  C7: the target extension of a template is \<open>.html\<close> when the extension of its source
  path is \<open>.md\<close> or \<open>.org\<close>, and is the source extension itself for every other
  extension.
\<close>

theorem TargetExt_spec:
  "(SrcExt templ = ''.md'' \<or> SrcExt templ = ''.org'' \<longrightarrow> TargetExt templ = ''.html'') \<and>
   (SrcExt templ \<noteq> ''.md'' \<and> SrcExt templ \<noteq> ''.org'' \<longrightarrow> TargetExt templ = SrcExt templ)"
  by (auto simp: TargetExt_def SrcExt_def Let_def)

theorem TargetExt_spec_witness:
  "SrcExt \<lparr>SrcPath = ''src/blog/hello.org'', Metadata = Map.empty, liquidTemplate = ()\<rparr> = ''.org'' \<and>
   TargetExt \<lparr>SrcPath = ''src/blog/hello.org'', Metadata = Map.empty, liquidTemplate = ()\<rparr> = ''.html'' \<and>
   SrcExt \<lparr>SrcPath = ''src/notes.v1/readme.txt'', Metadata = Map.empty, liquidTemplate = ()\<rparr> = ''.txt'' \<and>
   TargetExt \<lparr>SrcPath = ''src/notes.v1/readme.txt'', Metadata = Map.empty, liquidTemplate = ()\<rparr> = ''.txt''"
proof -
  have a: "SrcExt \<lparr>SrcPath = ''src/blog/hello.org'', Metadata = Map.empty, liquidTemplate = ()\<rparr> = ''.org''"
    by (simp add: SrcExt_def Ext_def)
  have b: "SrcExt \<lparr>SrcPath = ''src/notes.v1/readme.txt'', Metadata = Map.empty, liquidTemplate = ()\<rparr> = ''.txt''"
    by (simp add: SrcExt_def Ext_def)
  show ?thesis
    using a b
      TargetExt_spec [of "\<lparr>SrcPath = ''src/blog/hello.org'', Metadata = Map.empty, liquidTemplate = ()\<rparr>"]
      TargetExt_spec [of "\<lparr>SrcPath = ''src/notes.v1/readme.txt'', Metadata = Map.empty, liquidTemplate = ()\<rparr>"]
    by simp
qed

section \<open>Rendering through the layout chain\<close>

subsection \<open>One step of the loop\<close>

lemma render_loop_nil:
  "render_loop R site ctx content err VNil calls = Some (Return content err calls)"
  by (subst render_loop.simps) simp

lemma render_loop_failed:
  "err \<noteq> None \<Longrightarrow> render_loop R site ctx content err layout calls = Some (Return content err calls)"
  by (subst render_loop.simps) auto

lemma render_loop_step:
  "layouts site name = Some t \<Longrightarrow>
   render_loop R site ctx content None (VStr name) calls =
   render_loop R site (subst_ctx ctx content t) (rendered R (t, subst_ctx ctx content t))
     (failure R (t, subst_ctx ctx content t)) (index (Metadata t) ''layout'')
     (calls @ [(t, subst_ctx ctx content t)])"
  by (subst render_loop.simps) (simp add: subst_ctx_def rendered_def failure_def Let_def)

lemma render_loop_missing:
  "layouts site name = None \<Longrightarrow>
   render_loop R site ctx content None (VStr name) calls =
   Some (Return [] (Some (LayoutNotFound name)) calls)"
  by (subst render_loop.simps) simp

lemma render_loop_panic:
  "v \<noteq> VNil \<Longrightarrow> \<forall>s. v \<noteq> VStr s \<Longrightarrow>
   render_loop R site ctx content None v calls = Some Panic"
  by (subst render_loop.simps) (cases v; simp)

lemma subst_calls_length [simp]: "length (subst_calls R ctx content ts) = length ts"
  by (induction ts arbitrary: ctx content) simp_all

lemma subst_calls_Nil [simp]: "subst_calls R ctx content ts = [] \<longleftrightarrow> ts = []"
  by (cases ts) simp_all

lemma render_loop_chain:
  assumes "follows site m ts v" and "ts \<noteq> []"
    and "\<forall>c \<in> set (butlast (subst_calls R ctx content ts)). failure R c = None"
  shows "render_loop R site ctx content None (index m ''layout'') calls =
         render_loop R site (snd (last (subst_calls R ctx content ts)))
           (rendered R (last (subst_calls R ctx content ts)))
           (failure R (last (subst_calls R ctx content ts))) v
           (calls @ subst_calls R ctx content ts)"
  using assms
proof (induction ts arbitrary: m ctx content calls)
  case Nil
  then show ?case by simp
next
  case (Cons t ts)
  from Cons.prems(1) obtain name where
    name: "index m ''layout'' = VStr name" "layouts site name = Some t"
    and rest: "follows site (Metadata t) ts v"
    by (auto split: val.splits)
  let ?c = "subst_ctx ctx content t"
  show ?case
  proof (cases "ts = []")
    case True
    with name rest show ?thesis
      by (simp add: render_loop_step)
  next
    case False
    with Cons.prems(3) have ok: "failure R (t, ?c) = None"
      and oks: "\<forall>c \<in> set (butlast (subst_calls R ?c (rendered R (t, ?c)) ts)). failure R c = None"
      by (simp_all add: rendered_def)
    from Cons.IH [OF rest False oks, of "calls @ [(t, ?c)]"] name ok False
    show ?thesis
      by (simp add: render_loop_step rendered_def)
  qed
qed

subsection \<open>Acyclic chains\<close>

lemma subst_ctx_bindings:
  "subst_ctx ctx content t ''layout'' = Some (BMeta (Metadata t))"
  "subst_ctx ctx content t ''content'' = Some (BContent content)"
  by (simp_all add: subst_ctx_def)

lemma subst_calls_nth:
  "i < length ts \<Longrightarrow>
   (c0 # subst_calls R (snd c0) (rendered R c0) ts) ! Suc i =
   (ts ! i, subst_ctx (snd ((c0 # subst_calls R (snd c0) (rendered R c0) ts) ! i))
              (rendered R ((c0 # subst_calls R (snd c0) (rendered R c0) ts) ! i)) (ts ! i))"
proof (induction ts arbitrary: c0 i)
  case Nil
  then show ?case by simp
next
  case (Cons t ts)
  show ?case
  proof (cases i)
    case 0
    then show ?thesis by simp
  next
    case (Suc j)
    with Cons.prems have "j < length ts" by simp
    from Cons.IH [OF this, of "(t, subst_ctx (snd c0) (rendered R c0) t)"] Suc
    show ?thesis by (simp add: rendered_def)
  qed
qed

lemma expected_calls_nth:
  assumes "i < length ts"
  shows "expected_calls R site templ ts ! Suc i =
         (ts ! i, subst_ctx (snd (expected_calls R site templ ts ! i))
                    (rendered R (expected_calls R site templ ts ! i)) (ts ! i))"
  using subst_calls_nth [OF assms, of "(templ, page_ctx site templ)" R]
  by (simp add: expected_calls_def rendered_def)

lemma render_unfold:
  "render R site templ =
     (if failure R (templ, page_ctx site templ) \<noteq> None
      then Some (Return [] (failure R (templ, page_ctx site templ)) [(templ, page_ctx site templ)])
      else render_loop R site (page_ctx site templ) (rendered R (templ, page_ctx site templ)) None
             (index (Metadata templ) ''layout'') [(templ, page_ctx site templ)])"
  by (simp add: render_def Let_def page_ctx_def failure_def rendered_def)

lemma render_chain_result:
  assumes chain: "follows site (Metadata templ) ts VNil"
    and ok: "\<forall>i < length ts. failure R (expected_calls R site templ ts ! i) = None"
  shows "render R site templ =
         Some (Return
           (if ts = [] \<and> failure R (last (expected_calls R site templ ts)) \<noteq> None then []
            else rendered R (last (expected_calls R site templ ts)))
           (failure R (last (expected_calls R site templ ts)))
           (expected_calls R site templ ts))"
proof (cases "ts = []")
  case True
  with chain show ?thesis
    by (simp add: render_unfold expected_calls_def render_loop_nil)
next
  case False
  let ?p = "(templ, page_ctx site templ)"
  let ?cs = "subst_calls R (page_ctx site templ) (rendered R ?p) ts"
  from False ok have p_ok: "failure R ?p = None"
    by (auto simp: expected_calls_def dest: spec [of _ 0])
  have "\<forall>c \<in> set (butlast ?cs). failure R c = None"
  proof
    fix c assume "c \<in> set (butlast ?cs)"
    then obtain k where k: "k < length (butlast ?cs)" "c = butlast ?cs ! k"
      by (auto simp: in_set_conv_nth)
    then have "Suc k < length ts" by simp
    with ok have "failure R (expected_calls R site templ ts ! Suc k) = None" by blast
    with k show "failure R c = None"
      by (simp add: expected_calls_def nth_butlast rendered_def)
  qed
  from render_loop_chain [OF chain False this, of "[?p]"] p_ok False
  show ?thesis
    by (simp add: render_unfold render_loop_nil expected_calls_def rendered_def)
qed

text \<open>
  C2, as the code has it: when the layout chain of a template ends after the \<open>N\<close> layouts
  \<open>ts\<close>, and the render of the template itself and of every layout but the last succeed,
  \<open>Site.render\<close> returns after \<open>N + 1\<close> engine calls: the render of the template and
  then exactly \<open>N\<close> layout substitutions, the \<open>i\<close>-th of them rendering the \<open>i\<close>-th
  layout of the chain in a context where \<open>layout\<close> is that layout's metadata and
  \<open>content\<close> is the output of the call before it. The error returned is that of the last
  call.
\<close>

theorem render_acyclic_chain:
  assumes "follows site (Metadata templ) ts VNil"
    and "\<forall>i < length ts. failure R (expected_calls R site templ ts ! i) = None"
  shows "render R site templ =
           Some (Return
             (if ts = [] \<and> failure R (last (expected_calls R site templ ts)) \<noteq> None then []
              else rendered R (last (expected_calls R site templ ts)))
             (failure R (last (expected_calls R site templ ts)))
             (expected_calls R site templ ts)) \<and>
         length (expected_calls R site templ ts) = Suc (length ts) \<and>
         expected_calls R site templ ts ! 0 = (templ, page_ctx site templ) \<and>
         (\<forall>i < length ts.
            fst (expected_calls R site templ ts ! Suc i) = ts ! i \<and>
            snd (expected_calls R site templ ts ! Suc i) ''layout'' =
              Some (BMeta (Metadata (ts ! i))) \<and>
            snd (expected_calls R site templ ts ! Suc i) ''content'' =
              Some (BContent (rendered R (expected_calls R site templ ts ! i))))"
proof -
  let ?cs = "expected_calls R site templ ts"
  have len: "length ?cs = Suc (length ts)"
    by (simp add: expected_calls_def)
  have first: "?cs ! 0 = (templ, page_ctx site templ)"
    by (simp add: expected_calls_def)
  have each: "\<forall>i < length ts.
      fst (?cs ! Suc i) = ts ! i \<and>
      snd (?cs ! Suc i) ''layout'' = Some (BMeta (Metadata (ts ! i))) \<and>
      snd (?cs ! Suc i) ''content'' = Some (BContent (rendered R (?cs ! i)))"
    by (simp add: expected_calls_nth subst_ctx_bindings)
  from render_chain_result [OF assms] len first each show ?thesis
    by blast
qed

text \<open>
  C9, as the code has it: when the chain of a template reaches, after the layouts \<open>ts\<close>,
  a \<open>layout\<close> value that is neither nil nor a string, and every render up to there
  succeeds, \<open>Site.render\<close> panics on the type assertion \<open>layout.(string)\<close>.
\<close>

theorem render_panics_on_non_string_layout:
  assumes chain: "follows site (Metadata templ) ts v"
    and v: "v \<noteq> VNil" "\<forall>s. v \<noteq> VStr s"
    and ok: "\<forall>c \<in> set (expected_calls R site templ ts). failure R c = None"
  shows "render R site templ = Some Panic"
proof (cases "ts = []")
  case True
  with chain ok v show ?thesis
    by (simp add: render_unfold expected_calls_def render_loop_panic)
next
  case False
  let ?p = "(templ, page_ctx site templ)"
  let ?cs = "subst_calls R (page_ctx site templ) (rendered R ?p) ts"
  from ok have p_ok: "failure R ?p = None" and cs_ok: "\<forall>c \<in> set ?cs. failure R c = None"
    by (simp_all add: expected_calls_def rendered_def)
  from False have "?cs \<noteq> []" by simp
  then have "last ?cs \<in> set ?cs" by (rule last_in_set)
  with cs_ok have last_ok: "failure R (last ?cs) = None" by blast
  from cs_ok have "\<forall>c \<in> set (butlast ?cs). failure R c = None"
    by (auto dest: in_set_butlastD)
  from render_loop_chain [OF chain False this, of "[?p]"] p_ok last_ok v
  show ?thesis
    by (simp add: render_unfold render_loop_panic)
qed

lemma hello_chain: "follows blog_site (Metadata hello_post) [base_layout] VNil"
  by (simp add: blog_site_def site_of_def hello_post_def base_layout_def index_def)

text \<open>
  C2 as stated fails: the chain of the post has length one, but when the render of the
  post itself fails \<open>Site.render\<close> returns that error after a single engine call, with no
  layout substitution.
\<close>

theorem render_acyclic_chain_counterexample:
  "follows blog_site (Metadata hello_post) [base_layout] VNil \<and>
   render failing_engine blog_site hello_post =
     Some (Return [] (Some (RenderError ())) [(hello_post, page_ctx blog_site hello_post)])"
  using hello_chain by (simp add: render_unfold failure_def failing_engine_def)

text \<open>
  The post under the base layout: one substitution, \<open>Header Hello Hi Footer\<close>.
\<close>

theorem render_acyclic_chain_witness:
  "follows blog_site (Metadata hello_post) [base_layout] VNil \<and>
   render wrap_engine blog_site hello_post =
     Some (Return ''Header Hello Hi Footer'' None
       [(hello_post, page_ctx blog_site hello_post),
        (base_layout, (page_ctx blog_site hello_post)
           (''layout'' \<mapsto> BMeta (Metadata base_layout), ''content'' \<mapsto> BContent ''Hello Hi''))])"
proof -
  have ok: "\<forall>i < length [base_layout].
      failure wrap_engine (expected_calls wrap_engine blog_site hello_post [base_layout] ! i) = None"
    by (simp add: failure_def wrap_engine_def)
  have page: "page_ctx blog_site hello_post ''content'' = None"
    by (simp add: page_ctx_def baseContext_def)
  from render_acyclic_chain [OF hello_chain ok] hello_chain page show ?thesis
    by (simp add: expected_calls_def rendered_def failure_def wrap_engine_def subst_ctx_def
        base_layout_def hello_post_def)
qed

subsection \<open>Cyclic chains\<close>















text \<open>
  A page whose layout is the number 3 panics once its own render has succeeded.
\<close>

theorem render_panics_on_non_string_layout_witness:
  "follows blog_site (Metadata (page_with (VNum 3))) [] (VNum 3) \<and>
   render wrap_engine blog_site (page_with (VNum 3)) = Some Panic"
proof -
  have chain: "follows blog_site (Metadata (page_with (VNum 3))) [] (VNum 3)"
    by (simp add: page_with_def index_def)
  have ok: "\<forall>c \<in> set (expected_calls wrap_engine blog_site (page_with (VNum 3)) []).
      failure wrap_engine c = None"
    by (simp add: failure_def wrap_engine_def)
  from render_panics_on_non_string_layout [OF chain _ _ ok] chain show ?thesis
    by simp
qed

text \<open>
  C9 as stated fails twice: a \<open>layout\<close> key that is present with a nil value (YAML
  \<open>layout: null\<close>) is not a string, and the page renders without layout and without
  panic; and a page whose layout is the number 3 returns the engine's error, not a panic,
  when its own render fails.
\<close>

theorem render_panics_on_non_string_layout_counterexample:
  "Metadata (page_with VNil) ''layout'' = Some VNil \<and>
   render wrap_engine blog_site (page_with VNil) =
     Some (Return ''index'' None [(page_with VNil, page_ctx blog_site (page_with VNil))]) \<and>
   Metadata (page_with (VNum 3)) ''layout'' = Some (VNum 3) \<and>
   render failing_engine blog_site (page_with (VNum 3)) =
     Some (Return [] (Some (RenderError ()))
       [(page_with (VNum 3), page_ctx blog_site (page_with (VNum 3)))])"
proof -
  have "page_ctx blog_site (page_with VNil) ''content'' = None"
    by (simp add: page_ctx_def baseContext_def)
  then have "render wrap_engine blog_site (page_with VNil) =
     Some (Return ''index'' None [(page_with VNil, page_ctx blog_site (page_with VNil))])"
    by (simp add: render_unfold failure_def rendered_def wrap_engine_def render_loop_nil
        index_def page_with_def)
  moreover have "render failing_engine blog_site (page_with (VNum 3)) =
     Some (Return [] (Some (RenderError ()))
       [(page_with (VNum 3), page_ctx blog_site (page_with (VNum 3)))])"
    by (simp add: render_unfold failure_def failing_engine_def)
  ultimately show ?thesis
    by (simp add: page_with_def)
qed

section \<open>Rebuilds\<close>










text \<open>
  A source directory that cannot be examined: the rebuild panics in the walk, after the
  three fixed watches, and loads nothing.
\<close>

lemma rebuildSite_lost:
  "rebuildSite blog_config lost_world =
     ([Print (''building site'' @ [LF]),
       WatchAdd ''layouts'', WatchAdd ''data'', WatchAdd ''includes''], Panics)"
  by (simp add: rebuildSite_def addAll_def lost_world_def blog_world_def blog_config_def)






section \<open>The watcher loop\<close>

lemma watcher_loop_chmod:
  "\<forall>r \<in> set rs. chmod_event r \<Longrightarrow> watcher_loop st rs = st"
proof (induction rs)
  case Nil
  then show ?case by simp
next
  case (Cons r rs)
  obtain now x where r: "r = (now, x)" by (cases r)
  from Cons.prems have "chmod_event r" by simp
  with r obtain event where "x = FromEvents (Some event)" "Has event Chmod"
    by (auto simp: chmod_event_def split: received.splits option.splits)
  with r have "watcher_step st r = st" by simp
  with Cons show ?case by simp
qed

text \<open>
  C10: an event whose operation set includes \<open>Chmod\<close> leaves the watcher loop as it was,
  whatever other operations the event carries: nothing is printed and the debounce timer is
  neither stopped nor reset. A run of such events leaves the timer as it was.
\<close>

theorem chmod_events_dropped:
  "(Has event Chmod \<longrightarrow> watcher_step st (now, FromEvents (Some event)) = st) \<and>
   ((\<forall>r \<in> set rs. chmod_event r) \<longrightarrow> rebuildAfter (watcher_loop st rs) = rebuildAfter st)"
  by (simp add: watcher_loop_chmod)

text \<open>
  An event that carries both \<open>Write\<close> and \<open>Chmod\<close> is dropped, with the timer stopped or
  armed; the same file written without \<open>Chmod\<close> arms the timer 100 ms ahead.
\<close>

theorem chmod_events_dropped_witness:
  "Has \<lparr>Name = ''src/index.html'', Op = Write OR Chmod\<rparr> Write \<and>
   Has \<lparr>Name = ''src/index.html'', Op = Write OR Chmod\<rparr> Chmod \<and>
   rebuildAfter (watcher_step (idle_watcher :: unit watcher)
     (250, FromEvents (Some \<lparr>Name = ''src/index.html'', Op = Write OR Chmod\<rparr>))) = None \<and>
   rebuildAfter (watcher_loop (setupWatcher 0 :: unit watcher)
     [(250, FromEvents (Some \<lparr>Name = ''src/index.html'', Op = Write OR Chmod\<rparr>)),
      (260, FromEvents (Some \<lparr>Name = ''src/index.html'', Op = Chmod\<rparr>))]) = Some 0 \<and>
   rebuildAfter (watcher_step (idle_watcher :: unit watcher)
     (250, FromEvents (Some \<lparr>Name = ''src/index.html'', Op = Write\<rparr>))) = Some 350"
proof -
  let ?e = "\<lparr>Name = ''src/index.html'', Op = Write OR Chmod\<rparr>"
  let ?c = "\<lparr>Name = ''src/index.html'', Op = Chmod\<rparr>"
  let ?rs = "[(250, FromEvents (Some ?e)), (260, FromEvents (Some ?c))] :: (nat \<times> unit received) list"
  have w: "Has ?e Write" and c: "Has ?e Chmod" and c': "Has ?c Chmod"
    by (simp_all add: Has_def Write_def Chmod_def)
  have all: "\<forall>r \<in> set ?rs. chmod_event r"
    using c c' by (simp add: chmod_event_def)
  have wr: "\<not> Has \<lparr>Name = ''src/index.html'', Op = Write\<rparr> Chmod"
    by (simp add: Has_def Write_def Chmod_def)
  have "watcher_step (idle_watcher :: unit watcher) (250, FromEvents (Some ?e)) = idle_watcher"
    by (rule mp [OF conjunct1 [OF chmod_events_dropped [where rs = "[]"]] c])
  then have one: "rebuildAfter (watcher_step (idle_watcher :: unit watcher)
     (250, FromEvents (Some ?e))) = None"
    by (simp only: idle_watcher_def) simp
  have "rebuildAfter (watcher_loop (setupWatcher 0 :: unit watcher) ?rs) =
      rebuildAfter (setupWatcher 0 :: unit watcher)"
    by (rule mp [OF conjunct2 [OF chmod_events_dropped [where event = ?e and now = 0]] all])
  then have two: "rebuildAfter (watcher_loop (setupWatcher 0 :: unit watcher) ?rs) = Some 0"
    by (simp only: setupWatcher_def) simp
  from wr have three: "rebuildAfter (watcher_step (idle_watcher :: unit watcher)
       (250, FromEvents (Some \<lparr>Name = ''src/index.html'', Op = Write\<rparr>))) = Some 350"
    by (simp add: Reset_def Stop_def idle_watcher_def)
  from w c one two three show ?thesis by blast
qed

section \<open>The event broker\<close>

text \<open>
  C8: when the broker loop receives an unsubscribe message for an id that is not in its
  registry, it closes the nil channel that the registry lookup gives and panics; no message
  after that one is handled, so no later event is delivered.
\<close>

theorem unsubscribe_unknown_id_panics:
  "map_of (subscribers broker) i = None \<Longrightarrow>
   broker_step broker (unsubscribe i) = Inl CloseOfNilChannel \<and>
   broker_loop broker (unsubscribe i # ms) = Inl CloseOfNilChannel"
  by (simp add: unsubscribe_def close_def)

text \<open>
  An id that never subscribed, and the same id unsubscribed twice: both panic, and the
  event published afterwards is not delivered.
\<close>

theorem unsubscribe_unknown_id_panics_witness:
  "map_of (subscribers newEventBroker) 7 = None \<and>
   broker_loop newEventBroker [unsubscribe 7, publish ''rebuild''] = Inl CloseOfNilChannel \<and>
   broker_loop newEventBroker [subscribe 1 0, unsubscribe 1] =
     Inr \<lparr>subscribers = [], closed = [0], sent = (\<lambda>c. [])\<rparr> \<and>
   broker_loop newEventBroker [subscribe 1 0, unsubscribe 1, unsubscribe 1, publish ''rebuild''] =
     Inl CloseOfNilChannel"
proof -
  let ?b = "\<lparr>subscribers = [], closed = [0], sent = (\<lambda>c. [])\<rparr>"
  have once: "broker_loop newEventBroker [subscribe 1 0, unsubscribe 1] = Inr ?b"
    by (simp add: newEventBroker_def subscribe_def unsubscribe_def close_def delete_def)
  have split: "broker_loop newEventBroker
      [subscribe 1 0, unsubscribe 1, unsubscribe 1, publish ''rebuild''] =
      broker_loop ?b [unsubscribe 1, publish ''rebuild'']"
    by (simp add: newEventBroker_def subscribe_def unsubscribe_def close_def delete_def)
  from once split
    unsubscribe_unknown_id_panics [of newEventBroker 7 "[publish ''rebuild'']"]
    unsubscribe_unknown_id_panics [of ?b 1 "[publish ''rebuild'']"]
  show ?thesis
    by (simp add: newEventBroker_def)
qed

section \<open>Static files in the build\<close>

subsection \<open>Paths\<close>










subsection \<open>What a visit leaves alone\<close>








subsection \<open>The copy\<close>








section \<open>Templates and static files\<close>

subsection \<open>The line that is read\<close>

lemma first_line_short:
  "length (file_first_line data) < MaxScanTokenSize \<Longrightarrow>
   first_line data = dropCR (file_first_line data)"
  unfolding file_first_line_def
  by (subst first_line_def, subst ScanLines.simps) (simp add: dropCR_def)

lemma first_line_long:
  "MaxScanTokenSize \<le> length (file_first_line data) \<Longrightarrow> first_line data = []"
  unfolding file_first_line_def
  by (subst first_line_def, subst ScanLines.simps) simp

lemma Parse_result:
  "fs path = Some (File data) \<Longrightarrow>
   Parse U C fs path = Inr None \<longleftrightarrow> TrimSpace (first_line data) \<noteq> FM_SEPARATOR"
  by (auto simp: Parse_def Let_def split: prod.splits sum.splits if_splits)

subsection \<open>Trimming\<close>

lemma trim_leading_stop: "leading runes s = 0 \<Longrightarrow> trim_leading runes s = s"
  by (subst trim_leading.simps) simp

lemma trim_leading_step:
  "leading runes s = Suc n \<Longrightarrow> trim_leading runes s = trim_leading runes (drop (Suc n) s)"
  by (subst trim_leading.simps) simp

lemma leading_empty: "leading runes [] = 0"
  by (auto simp: leading_def find_Some_iff split: option.splits)

lemma trim_leading_empty: "trim_leading runes [] = []"
  by (simp add: trim_leading_stop leading_empty)

lemma TrimSpace_empty: "TrimSpace [] = []"
  by (simp add: TrimSpace_def trim_leading_empty)

lemma leading_le: "leading runes s \<le> length s"
proof (cases "find (\<lambda>r. r \<noteq> [] \<and> take (length r) s = r) runes")
  case None
  then show ?thesis by (simp add: leading_def)
next
  case (Some r)
  then have "take (length r) s = r" by (auto simp: find_Some_iff)
  then have "length (take (length r) s) = length r" by simp
  then have "length r \<le> length s" by simp
  with Some show ?thesis by (simp add: leading_def)
qed

lemma leading_none: "c \<notin> hd ` set runes \<Longrightarrow> leading runes (c # s) = 0"
proof (cases "find (\<lambda>r. r \<noteq> [] \<and> take (length r) (c # s) = r) runes")
  case None
  then show ?thesis by (simp add: leading_def)
next
  case (Some r)
  then have r: "r \<in> set runes" "r \<noteq> []" "take (length r) (c # s) = r"
    by (auto simp: find_Some_iff)
  from r(2,3) have "hd r = c" by (cases r) simp_all
  moreover assume "c \<notin> hd ` set runes"
  ultimately show ?thesis using r(1) by auto
qed

lemma leading_dash [simp]: "leading space_runes (CHR ''-'' # s) = 0"
  "leading (map rev space_runes) (CHR ''-'' # s) = 0"
  by (simp_all add: leading_def space_runes_def)

lemma leading_blank [simp]: "leading space_runes (CHR '' '' # s) = Suc 0"
  "leading (map rev space_runes) (CHR '' '' # s) = Suc 0"
  by (simp_all add: leading_def space_runes_def)

lemma leading_CR: "leading (map rev space_runes) (CR # s) = Suc 0"
  by (simp add: leading_def space_runes_def CR_def)

text \<open>
  A carriage return at the end of a line is white space, so the line that the scanner
  delivers and the line of the file trim to the same text.
\<close>

lemma multibyte_no_CR: "r \<in> set space_runes \<Longrightarrow> Suc 0 < length r \<Longrightarrow> last r \<noteq> CR"
  by (auto simp: space_runes_def CR_def)

lemma leading_snoc_CR:
  assumes "s \<noteq> []"
  shows "leading space_runes (s @ [CR]) = leading space_runes s"
proof -
  have "(r \<noteq> [] \<and> take (length r) (s @ [CR]) = r) = (r \<noteq> [] \<and> take (length r) s = r)"
    if r: "r \<in> set space_runes" for r
  proof (cases "length r \<le> length s")
    case True
    then show ?thesis by simp
  next
    case False
    with assms have long: "Suc 0 < length r" "length s < length r"
      by (cases s; simp)+
    have "take (length r) s \<noteq> r"
    proof
      assume "take (length r) s = r"
      then have "length (take (length r) s) = length r" by simp
      with long(2) show False by simp
    qed
    moreover have "take (length r) (s @ [CR]) \<noteq> r"
    proof
      assume eq: "take (length r) (s @ [CR]) = r"
      from long(2) have "take (length r) (s @ [CR]) = s @ [CR]" by simp
      with eq have "last r = CR" by (metis last_snoc)
      with multibyte_no_CR [OF r long(1)] show False by simp
    qed
    ultimately show ?thesis by simp
  qed
  then have "find (\<lambda>r. r \<noteq> [] \<and> take (length r) (s @ [CR]) = r) space_runes =
      find (\<lambda>r. r \<noteq> [] \<and> take (length r) s = r) space_runes"
    by (intro find_cong) simp_all
  then show ?thesis by (simp add: leading_def)
qed

lemma trim_leading_snoc_CR:
  "trim_leading space_runes (s @ [CR]) =
     (if trim_leading space_runes s = [] then [] else trim_leading space_runes s @ [CR])"
proof (induction s rule: length_induct)
  case (1 s)
  show ?case
  proof (cases "s = []")
    case True
    have "leading space_runes [CR] = Suc 0"
      by (simp add: leading_def space_runes_def CR_def)
    with True show ?thesis
      by (simp add: trim_leading_step trim_leading_empty)
  next
    case False
    note eq = leading_snoc_CR [OF False]
    show ?thesis
    proof (cases "leading space_runes s")
      case 0
      with eq False show ?thesis by (simp add: trim_leading_stop)
    next
      case (Suc n)
      with leading_le [of space_runes s] have n: "Suc n \<le> length s" by simp
      with False have "length (drop (Suc n) s) < length s" by (cases s) simp_all
      with "1.IH" have "trim_leading space_runes (drop (Suc n) s @ [CR]) =
          (if trim_leading space_runes (drop (Suc n) s) = [] then []
           else trim_leading space_runes (drop (Suc n) s) @ [CR])"
        by blast
      with Suc eq n show ?thesis
        by (simp add: trim_leading_step)
    qed
  qed
qed

lemma TrimSpace_snoc_CR: "TrimSpace (s @ [CR]) = TrimSpace s"
  by (simp add: TrimSpace_def trim_leading_snoc_CR trim_leading_empty
      trim_leading_step [OF leading_CR])

lemma TrimSpace_dropCR: "TrimSpace (dropCR s) = TrimSpace s"
proof (cases "s \<noteq> [] \<and> last s = CR")
  case True
  then have "s = butlast s @ [CR]" by (metis append_butlast_last_id)
  then have "TrimSpace s = TrimSpace (butlast s)" by (metis TrimSpace_snoc_CR)
  with True show ?thesis by (simp add: dropCR_def)
next
  case False
  then show ?thesis by (auto simp: dropCR_def)
qed

lemma Parse_short_first_line:
  "fs path = Some (File data) \<Longrightarrow> length (file_first_line data) < MaxScanTokenSize \<Longrightarrow>
   Parse U C fs path = Inr None \<longleftrightarrow> TrimSpace (file_first_line data) \<noteq> FM_SEPARATOR"
  by (simp add: Parse_result first_line_short TrimSpace_dropCR)

text \<open>
  A first line that does not fit the buffer of the scanner is not delivered: \<open>Parse\<close> reads
  the empty line and the file is no template, whatever the line holds.
\<close>

lemma Parse_long_first_line:
  "fs path = Some (File data) \<Longrightarrow> MaxScanTokenSize \<le> length (file_first_line data) \<Longrightarrow>
   Parse U C fs path = Inr None"
  by (simp add: Parse_result first_line_long TrimSpace_empty FM_SEPARATOR_def)

text \<open>
  C3, as the code has it: for every file whose first line is shorter than the 64 KiB of the
  scanner's buffer, \<open>Parse\<close> returns \<open>(nil, nil)\<close> if and only if the first line of the
  file, with white space trimmed, is not the delimiter \<open>---\<close>; for every file with a longer
  first line \<open>Parse\<close> returns \<open>(nil, nil)\<close>.
\<close>

theorem Parse_no_template:
  assumes "fs path = Some (File data)"
  shows "(length (file_first_line data) < MaxScanTokenSize \<longrightarrow>
            (Parse U C fs path = Inr None \<longleftrightarrow>
             TrimSpace (file_first_line data) \<noteq> FM_SEPARATOR)) \<and>
         (MaxScanTokenSize \<le> length (file_first_line data) \<longrightarrow>
            Parse U C fs path = Inr None)"
  using assms by (simp add: Parse_short_first_line Parse_long_first_line)


subsection \<open>Three files\<close>

lemma file_first_line_found: "LF \<notin> set line \<Longrightarrow> file_first_line (line @ LF # rest) = line"
  unfolding file_first_line_def by (subst takeWhile_append2) auto

lemma trim_delimiter: "TrimSpace ''---'' = ''---''"
  by (simp add: TrimSpace_def trim_leading_stop)

lemma trim_blanks:
  "trim_leading (map rev space_runes) (replicate n (CHR '' '') @ s) =
   trim_leading (map rev space_runes) s"
  by (induction n) (simp_all add: trim_leading_step [OF leading_blank(2)])

lemma trim_padded_delimiter: "TrimSpace (''---'' @ replicate n (CHR '' '')) = ''---''"
  by (simp add: TrimSpace_def trim_leading_stop trim_blanks)

lemma about_first: "file_first_line about_page = ''---'' @ [CR]"
proof -
  have "about_page = (''---'' @ [CR]) @ LF # ''title: About'' @ [LF] @ '' --- '' @ [LF] @ ''About us'' @ [LF]"
    by (simp add: about_page_def)
  moreover have "LF \<notin> set (''---'' @ [CR])"
    by (simp add: LF_def CR_def)
  ultimately show ?thesis
    by (metis file_first_line_found)
qed

lemma robots_first: "file_first_line robots = ''User-agent: *''"
proof -
  have "robots = ''User-agent: *'' @ LF # []"
    by (simp add: robots_def)
  moreover have "LF \<notin> set ''User-agent: *''"
    by (simp add: LF_def)
  ultimately show ?thesis
    by (metis file_first_line_found)
qed

lemma padded_first:
  "file_first_line padded_page = ''---'' @ replicate MaxScanTokenSize (CHR '' '')"
proof -
  have "padded_page = (''---'' @ replicate MaxScanTokenSize (CHR '' '')) @
      LF # ''title: Padded'' @ [LF] @ ''---'' @ [LF] @ ''Padded'' @ [LF]"
    by (simp add: padded_page_def)
  moreover have "LF \<notin> set (''---'' @ replicate MaxScanTokenSize (CHR '' ''))"
    by (auto simp: LF_def)
  ultimately show ?thesis
    by (metis file_first_line_found)
qed

lemma trim_robots: "TrimSpace ''User-agent: *'' \<noteq> FM_SEPARATOR"
  by (simp add: TrimSpace_def trim_leading_stop leading_none space_runes_def FM_SEPARATOR_def)

text \<open>
  C3 as stated fails: the first line of the padded page is the delimiter followed by 64 KiB
  of blanks and trims to the delimiter, but the scanner does not deliver a line of that
  length and \<open>Parse\<close> returns \<open>(nil, nil)\<close>.
\<close>

theorem Parse_no_template_counterexample:
  "some_files ''src/padded.html'' = Some (File padded_page) \<and>
   TrimSpace (file_first_line padded_page) = FM_SEPARATOR \<and>
   Parse no_yaml plain_body some_files ''src/padded.html'' = Inr None"
proof -
  have stored: "some_files ''src/padded.html'' = Some (File padded_page)"
    by (simp add: some_files_def)
  have long: "MaxScanTokenSize \<le> length (file_first_line padded_page)"
    by (simp add: padded_first)
  have trimmed: "TrimSpace (file_first_line padded_page) = FM_SEPARATOR"
    by (simp only: padded_first trim_padded_delimiter FM_SEPARATOR_def)
  from Parse_long_first_line
    [of some_files "''src/padded.html''" padded_page no_yaml plain_body, OF stored long]
    stored trimmed
  show ?thesis
    by simp
qed

text \<open>
  A static file, a page whose delimiter line ends with a carriage return, and the padded
  page.
\<close>

theorem Parse_no_template_witness:
  "some_files ''src/robots.txt'' = Some (File robots) \<and>
   length (file_first_line robots) < MaxScanTokenSize \<and>
   TrimSpace (file_first_line robots) \<noteq> FM_SEPARATOR \<and>
   Parse no_yaml plain_body some_files ''src/robots.txt'' = Inr None \<and>
   some_files ''src/about.html'' = Some (File about_page) \<and>
   length (file_first_line about_page) < MaxScanTokenSize \<and>
   TrimSpace (file_first_line about_page) = FM_SEPARATOR \<and>
   Parse no_yaml plain_body some_files ''src/about.html'' \<noteq> Inr None \<and>
   some_files ''src/padded.html'' = Some (File padded_page) \<and>
   MaxScanTokenSize \<le> length (file_first_line padded_page) \<and>
   Parse no_yaml plain_body some_files ''src/padded.html'' = Inr None"
proof -
  have r: "some_files ''src/robots.txt'' = Some (File robots)"
    and a: "some_files ''src/about.html'' = Some (File about_page)"
    and p: "some_files ''src/padded.html'' = Some (File padded_page)"
    by (simp_all add: some_files_def)
  have rl: "length (file_first_line robots) < MaxScanTokenSize"
    and al: "length (file_first_line about_page) < MaxScanTokenSize"
    and pl: "MaxScanTokenSize \<le> length (file_first_line padded_page)"
    by (simp_all add: robots_first about_first padded_first MaxScanTokenSize_def)
  have rt: "TrimSpace (file_first_line robots) \<noteq> FM_SEPARATOR"
    by (simp add: robots_first trim_robots)
  have "TrimSpace (''---'' @ [CR]) = ''---''"
    by (simp only: TrimSpace_snoc_CR trim_delimiter)
  then have at: "TrimSpace (file_first_line about_page) = FM_SEPARATOR"
    by (simp add: about_first FM_SEPARATOR_def)
  from r a p rl al pl rt at
    Parse_no_template [of some_files "''src/robots.txt''" robots no_yaml plain_body, OF r]
    Parse_no_template [of some_files "''src/about.html''" about_page no_yaml plain_body, OF a]
    Parse_no_template [of some_files "''src/padded.html''" padded_page no_yaml plain_body, OF p]
  show ?thesis
    by simp
qed

text \<open>The page with the carriage return, parsed.\<close>

lemma about_lines:
  "ScanLines about_page = [''---'', ''title: About'', '' --- '', ''About us'']"
  by (simp add: about_page_def ScanLines.simps LF_def CR_def MaxScanTokenSize_def dropCR_def)

lemma trim_padded: "TrimSpace '' --- '' = ''---''"
  by (simp add: TrimSpace_def trim_leading_stop trim_leading_step)

lemma trim_title: "TrimSpace ''title: About'' \<noteq> FM_SEPARATOR"
  by (simp add: TrimSpace_def trim_leading_stop leading_none space_runes_def FM_SEPARATOR_def)

lemma about_parsed:
  "Parse no_yaml plain_body some_files ''src/about.html'' =
     Inr (Some \<lparr>SrcPath = ''src/about.html'', Metadata = Map.empty, liquidTemplate = ''About us''\<rparr>)"
  using trim_title
  by (simp add: Parse_def some_files_def first_line_def about_lines trim_delimiter trim_padded
      FM_SEPARATOR_def no_yaml_def plain_body_def TrimSuffix_def)

end
